theory Spec2Isabelle
  imports Main "HOL-Library.Word" "HOL-Library.Sublist"
begin

section \<open>JavaScript strings\<close>

text \<open>
  A JavaScript string is a sequence of UTF-16 code units, and every operation the diff
  parser uses (\<^verbatim>\<open>startsWith\<close>, \<^verbatim>\<open>includes\<close>, \<^verbatim>\<open>split\<close>, \<^verbatim>\<open>join\<close>, \<^verbatim>\<open>substring\<close>, regular
  expressions without the \<^verbatim>\<open>u\<close> flag) works on code units. The empty string is the only
  falsy string.
\<close>

type_synonym codeUnit = "16 word"
type_synonym jsstring = "codeUnit list"

definition js :: "string \<Rightarrow> jsstring" where
  "js s = map of_char s"

definition startsWith :: "jsstring \<Rightarrow> jsstring \<Rightarrow> bool" where
  "startsWith s p = prefix p s"

fun includesStr :: "jsstring \<Rightarrow> jsstring \<Rightarrow> bool" where
  "includesStr [] p = (p = [])"
| "includesStr (c # cs) p = (startsWith (c # cs) p \<or> includesStr cs p)"

definition substring1 :: "jsstring \<Rightarrow> jsstring" where
  "substring1 s = drop 1 s"

definition LF :: codeUnit where
  "LF = 0x0A"

fun splitLines :: "jsstring \<Rightarrow> jsstring list" where
  "splitLines [] = [[]]"
| "splitLines (c # cs) =
     (if c = LF then [] # splitLines cs
      else (case splitLines cs of
              [] \<Rightarrow> [[c]]
            | l # ls \<Rightarrow> (c # l) # ls))"

fun joinLines :: "jsstring list \<Rightarrow> jsstring" where
  "joinLines [] = []"
| "joinLines [l] = l"
| "joinLines (l # ls) = l @ LF # joinLines ls"

subsection \<open>Regular expressions\<close>

text \<open>
  \<^verbatim>\<open>String.prototype.match\<close> with a regular expression that has no \<^verbatim>\<open>g\<close> flag returns the
  match at the leftmost start position at which the pattern matches; start positions run
  from 0 to the length of the string. \<open>firstMatch m s\<close> tries the anchored matcher \<open>m\<close> at
  every suffix of \<open>s\<close>, from the left.
\<close>

fun firstMatch :: "(jsstring \<Rightarrow> 'a option) \<Rightarrow> jsstring \<Rightarrow> 'a option" where
  "firstMatch m [] = m []"
| "firstMatch m (c # cs) =
     (case m (c # cs) of
        Some r \<Rightarrow> Some r
      | None \<Rightarrow> firstMatch m cs)"

text \<open>The class \<^verbatim>\<open>\s\<close>: the WhiteSpace and LineTerminator code points of ECMAScript.\<close>

definition isWhiteSpace :: "codeUnit \<Rightarrow> bool" where
  "isWhiteSpace c =
     (c \<in> {0x09, 0x0A, 0x0B, 0x0C, 0x0D, 0x20, 0xA0, 0x1680, 0x2028, 0x2029,
            0x202F, 0x205F, 0x3000, 0xFEFF}
      \<or> (0x2000 \<le> c \<and> c \<le> 0x200A))"

text \<open>Without the \<^verbatim>\<open>s\<close> flag, \<^verbatim>\<open>.\<close> matches every code unit but the line terminators.\<close>

definition isLineTerminator :: "codeUnit \<Rightarrow> bool" where
  "isLineTerminator c = (c \<in> {0x0A, 0x0D, 0x2028, 0x2029})"


section \<open>diffParser.ts: the file pattern\<close>

text \<open>
  \<^verbatim>\<open>filePath.replace(/[.*+?^${}()|[\]\\]/g, '\\$&')\<close> puts a backslash before each of the
  fourteen syntax characters of the pattern language, so that \<^verbatim>\<open>escapedPath\<close> matches the
  code units of \<^verbatim>\<open>filePath\<close> literally and the constructed pattern is always well formed.
  The pattern is
  \<^verbatim>\<open>diff --git a/[^\s]+ b/${escapedPath}.*?(?=diff --git|$)\<close> with the flag \<^verbatim>\<open>s\<close>.

  \<open>untilNextHeader\<close> is the lazy \<^verbatim>\<open>.*?(?=diff --git|$)\<close>: with the \<^verbatim>\<open>s\<close> flag the dot matches
  every code unit, without the \<^verbatim>\<open>m\<close> flag \<^verbatim>\<open>$\<close> is the end of the input, so the shortest
  extension stops in front of the next occurrence of \<^verbatim>\<open>diff --git\<close> or at the end.
\<close>

fun untilNextHeader :: "jsstring \<Rightarrow> jsstring" where
  "untilNextHeader [] = []"
| "untilNextHeader (c # cs) =
     (if startsWith (c # cs) (js ''diff --git'') then [] else c # untilNextHeader cs)"

text \<open>
  The pattern anchored at the start of \<open>s\<close>. The greedy \<^verbatim>\<open>[^\s]+\<close> is followed by a space,
  which is in \<^verbatim>\<open>\s\<close>, so the only length at which the rest can match is the whole run of
  non-whitespace code units.
\<close>

definition filePatternAt :: "jsstring \<Rightarrow> jsstring \<Rightarrow> jsstring option" where
  "filePatternAt filePath s =
     (if startsWith s (js ''diff --git a/'') then
        (let rest = drop (length (js ''diff --git a/'')) s;
             oldPath = takeWhile (\<lambda>c. \<not> isWhiteSpace c) rest;
             afterOld = dropWhile (\<lambda>c. \<not> isWhiteSpace c) rest;
             newPart = js '' b/'' @ filePath
         in if oldPath \<noteq> [] \<and> startsWith afterOld newPart
            then Some (js ''diff --git a/'' @ oldPath @ newPart
                         @ untilNextHeader (drop (length newPart) afterOld))
            else None)
      else None)"

definition matchFilePattern :: "jsstring \<Rightarrow> jsstring \<Rightarrow> jsstring option" where
  "matchFilePattern fullDiff filePath = firstMatch (filePatternAt filePath) fullDiff"

section \<open>diffParser.ts: parseDiffForFile\<close>

text \<open>
  A thrown value, and the console as the list of what \<^verbatim>\<open>console.error\<close> has written: the
  only state outside their arguments that the two functions touch.
\<close>

datatype thrown = Thrown jsstring

type_synonym console = "(jsstring \<times> thrown) list"

record parsedFile =
  original :: jsstring
  modified :: jsstring

record fileLoop =
  inHunkF :: bool
  originalLines :: "jsstring list"
  modifiedLines :: "jsstring list"

definition fileLine :: "fileLoop \<Rightarrow> jsstring \<Rightarrow> fileLoop" where
  "fileLine st line =
     (if startsWith line (js ''@@'') then st\<lparr>inHunkF := True\<rparr>
      else if \<not> inHunkF st then st
      else if startsWith line (js ''diff '') \<or> startsWith line (js ''index '')
              \<or> startsWith line (js ''--- '') \<or> startsWith line (js ''+++ '') then st
      else if startsWith line (js ''-'') then
        st\<lparr>originalLines := originalLines st @ [substring1 line]\<rparr>
      else if startsWith line (js ''+'') then
        st\<lparr>modifiedLines := modifiedLines st @ [substring1 line]\<rparr>
      else
        (let l = (if startsWith line (js '' '') then substring1 line else line)
         in st\<lparr>originalLines := originalLines st @ [l],
                modifiedLines := modifiedLines st @ [l]\<rparr>))"

text \<open>The body of the \<^verbatim>\<open>try\<close> block; \<open>Inl\<close> is a thrown exception.\<close>

definition tryParseDiffForFile :: "jsstring \<Rightarrow> jsstring \<Rightarrow> thrown + parsedFile option" where
  "tryParseDiffForFile fullDiff filePath =
     (case matchFilePattern fullDiff filePath of
        None \<Rightarrow> Inr None
      | Some fileDiff \<Rightarrow>
          if includesStr fileDiff (js ''Binary files'') then Inr None
          else if includesStr fileDiff (js ''deleted file mode'') then Inr None
          else
            (let st = foldl fileLine
                        \<lparr>inHunkF = False, originalLines = [], modifiedLines = []\<rparr>
                        (splitLines fileDiff)
             in Inr (Some \<lparr>original = joinLines (originalLines st),
                            modified = joinLines (modifiedLines st)\<rparr>)))"

definition catchParseDiffForFile ::
  "console \<Rightarrow> thrown + parsedFile option \<Rightarrow> parsedFile option \<times> console" where
  "catchParseDiffForFile con r =
     (case r of
        Inr v \<Rightarrow> (v, con)
      | Inl e \<Rightarrow> (None, con @ [(js ''Error parsing diff:'', e)]))"

definition parseDiffForFile ::
  "console \<Rightarrow> jsstring \<Rightarrow> jsstring \<Rightarrow> parsedFile option \<times> console" where
  "parseDiffForFile con fullDiff filePath =
     (if fullDiff = [] \<or> filePath = [] then (None, con)
      else catchParseDiffForFile con (tryParseDiffForFile fullDiff filePath))"

section \<open>diffParser.ts: parseDiffWithColors\<close>

record lineRange =
  startLineNumber :: nat
  endLineNumber :: nat

record decorationOptions =
  isWholeLine :: bool
  className :: "jsstring option"
  glyphMarginClassName :: "jsstring option"

record decoration =
  lines_d :: lineRange
  options_d :: decorationOptions

record renderedDiff =
  content :: jsstring
  decorations :: "decoration list"

definition hunkHeaderDecoration :: "nat \<Rightarrow> decoration" where
  "hunkHeaderDecoration n =
     \<lparr>lines_d = \<lparr>startLineNumber = n, endLineNumber = n\<rparr>,
      options_d = \<lparr>isWholeLine = True, className = Some (js ''diff-hunk-header''),
                   glyphMarginClassName = None\<rparr>\<rparr>"

definition deletedDecoration :: "nat \<Rightarrow> decoration" where
  "deletedDecoration n =
     \<lparr>lines_d = \<lparr>startLineNumber = n, endLineNumber = n\<rparr>,
      options_d = \<lparr>isWholeLine = True, className = Some (js ''diff-line-deleted''),
                   glyphMarginClassName = Some (js ''diff-glyph-deleted'')\<rparr>\<rparr>"

definition addedDecoration :: "nat \<Rightarrow> decoration" where
  "addedDecoration n =
     \<lparr>lines_d = \<lparr>startLineNumber = n, endLineNumber = n\<rparr>,
      options_d = \<lparr>isWholeLine = True, className = Some (js ''diff-line-added''),
                   glyphMarginClassName = Some (js ''diff-glyph-added'')\<rparr>\<rparr>"

text \<open>
  \<^verbatim>\<open>/rename from (.+)\nrename to (.+)/\<close> anchored at the start of \<open>s\<close>. Each greedy \<^verbatim>\<open>(.+)\<close>
  takes the whole run of code units that are not line terminators: the first is followed
  by a line feed, which no shorter run has after it, and the second ends the pattern.
\<close>

definition renameAt :: "jsstring \<Rightarrow> (jsstring \<times> jsstring) option" where
  "renameAt s =
     (if startsWith s (js ''rename from '') then
        (let rest = drop (length (js ''rename from '')) s;
             old = takeWhile (\<lambda>c. \<not> isLineTerminator c) rest;
             afterOld = dropWhile (\<lambda>c. \<not> isLineTerminator c) rest;
             sep = LF # js ''rename to ''
         in if old \<noteq> [] \<and> startsWith afterOld sep then
              (let new = takeWhile (\<lambda>c. \<not> isLineTerminator c) (drop (length sep) afterOld)
               in if new \<noteq> [] then Some (old, new) else None)
            else None)
      else None)"

definition renameMatch :: "jsstring \<Rightarrow> (jsstring \<times> jsstring) option" where
  "renameMatch fileDiff = firstMatch renameAt fileDiff"

text \<open>The three code units between the two paths of the banner, as the source file has them.\<close>

definition arrow :: jsstring where
  "arrow = [0xE2, 0x2020, 0x2019]"

definition renameBanner :: "jsstring \<Rightarrow> jsstring \<Rightarrow> jsstring" where
  "renameBanner old new = js ''// File renamed: '' @ old @ js '' '' @ arrow @ js '' '' @ new"

definition bannerLines :: "jsstring \<Rightarrow> jsstring list" where
  "bannerLines fileDiff =
     (case renameMatch fileDiff of
        Some (old, new) \<Rightarrow> [renameBanner old new, []]
      | None \<Rightarrow>
          if includesStr fileDiff (js ''new file mode'') then [js ''// New file'', []]
          else [])"

record colorLoop =
  lineNumber :: nat
  inHunk :: bool
  contentLines :: "jsstring list"
  decorationList :: "decoration list"

definition isDiffMetadata :: "jsstring \<Rightarrow> bool" where
  "isDiffMetadata line =
     (startsWith line (js ''diff '') \<or> startsWith line (js ''index '')
      \<or> startsWith line (js ''--- '') \<or> startsWith line (js ''+++ '')
      \<or> startsWith line (js ''new file mode'') \<or> startsWith line (js ''deleted file mode'')
      \<or> startsWith line (js ''rename from'') \<or> startsWith line (js ''rename to''))"

definition colorLine :: "colorLoop \<Rightarrow> jsstring \<Rightarrow> colorLoop" where
  "colorLine st line =
     (if isDiffMetadata line then st
      else if startsWith line (js ''@@'') then
        (let n = lineNumber st + 1
         in st\<lparr>lineNumber := n, inHunk := True,
                contentLines := contentLines st @ [line],
                decorationList := decorationList st @ [hunkHeaderDecoration n]\<rparr>)
      else if \<not> inHunk st then st
      else
        (let n = lineNumber st + 1
         in if startsWith line (js ''-'') then
              st\<lparr>lineNumber := n,
                  contentLines := contentLines st @ [substring1 line],
                  decorationList := decorationList st @ [deletedDecoration n]\<rparr>
            else if startsWith line (js ''+'') then
              st\<lparr>lineNumber := n,
                  contentLines := contentLines st @ [substring1 line],
                  decorationList := decorationList st @ [addedDecoration n]\<rparr>
            else
              st\<lparr>lineNumber := n,
                  contentLines := contentLines st
                    @ [if startsWith line (js '' '') then substring1 line else line]\<rparr>))"

definition colorLoopInit :: "jsstring list \<Rightarrow> colorLoop" where
  "colorLoopInit banner =
     \<lparr>lineNumber = length banner, inHunk = False, contentLines = banner, decorationList = []\<rparr>"

definition binaryPlaceholder :: renderedDiff where
  "binaryPlaceholder = \<lparr>content = js ''Binary file - no preview available'', decorations = []\<rparr>"

definition deletedPlaceholder :: renderedDiff where
  "deletedPlaceholder = \<lparr>content = js ''File was deleted in this PR'', decorations = []\<rparr>"

definition emptyPlaceholder :: renderedDiff where
  "emptyPlaceholder = \<lparr>content = js ''No changes to display'', decorations = []\<rparr>"

definition errorPlaceholder :: renderedDiff where
  "errorPlaceholder =
     \<lparr>content = js ''Error parsing diff. The diff format may be unsupported.'',
      decorations = []\<rparr>"

text \<open>The part of the \<^verbatim>\<open>try\<close> block that follows the two early returns.\<close>

definition renderFragment :: "jsstring \<Rightarrow> renderedDiff" where
  "renderFragment fileDiff =
     (let st = foldl colorLine (colorLoopInit (bannerLines fileDiff)) (splitLines fileDiff)
      in if contentLines st = [] then emptyPlaceholder
         else \<lparr>content = joinLines (contentLines st), decorations = decorationList st\<rparr>)"

definition tryParseDiffWithColors :: "jsstring \<Rightarrow> jsstring \<Rightarrow> thrown + renderedDiff option" where
  "tryParseDiffWithColors fullDiff filePath =
     (case matchFilePattern fullDiff filePath of
        None \<Rightarrow> Inr None
      | Some fileDiff \<Rightarrow>
          if includesStr fileDiff (js ''Binary files'') then Inr (Some binaryPlaceholder)
          else if includesStr fileDiff (js ''deleted file mode'') then Inr (Some deletedPlaceholder)
          else Inr (Some (renderFragment fileDiff)))"

definition catchParseDiffWithColors ::
  "console \<Rightarrow> thrown + renderedDiff option \<Rightarrow> renderedDiff option \<times> console" where
  "catchParseDiffWithColors con r =
     (case r of
        Inr v \<Rightarrow> (v, con)
      | Inl e \<Rightarrow> (Some errorPlaceholder, con @ [(js ''Error parsing diff:'', e)]))"

definition parseDiffWithColors ::
  "console \<Rightarrow> jsstring \<Rightarrow> jsstring \<Rightarrow> renderedDiff option \<times> console" where
  "parseDiffWithColors con fullDiff filePath =
     (if fullDiff = [] \<or> filePath = [] then (None, con)
      else catchParseDiffWithColors con (tryParseDiffWithColors fullDiff filePath))"

section \<open>utils.ts: parseDiffHunk\<close>






section \<open>Notions of the specification\<close>


text \<open>
  Where a display line comes from. The source lines that reach the display buffer are the
  lines that are not diff metadata, from the first hunk header on; each is a hunk header, a
  deletion, an addition or a context line by its first code units.
\<close>

datatype origin = HunkHeader | Deleted | Added | Context

definition originOf :: "jsstring \<Rightarrow> origin" where
  "originOf l =
     (if startsWith l (js ''@@'') then HunkHeader
      else if startsWith l (js ''-'') then Deleted
      else if startsWith l (js ''+'') then Added
      else Context)"

definition displayedSourceLines :: "jsstring list \<Rightarrow> jsstring list" where
  "displayedSourceLines ls =
     dropWhile (\<lambda>l. \<not> startsWith l (js ''@@'')) (filter (\<lambda>l. \<not> isDiffMetadata l) ls)"

text \<open>The display text of a source line: the marker of a body line is stripped.\<close>

definition displayText :: "jsstring \<Rightarrow> jsstring" where
  "displayText l =
     (case originOf l of
        HunkHeader \<Rightarrow> l
      | Deleted \<Rightarrow> substring1 l
      | Added \<Rightarrow> substring1 l
      | Context \<Rightarrow> if startsWith l (js '' '') then substring1 l else l)"

text \<open>The category of an annotation, read from its style class.\<close>

definition categoryOf :: "decoration \<Rightarrow> origin" where
  "categoryOf d =
     (if className (options_d d) = Some (js ''diff-hunk-header'') then HunkHeader
      else if className (options_d d) = Some (js ''diff-line-deleted'') then Deleted
      else if className (options_d d) = Some (js ''diff-line-added'') then Added
      else Context)"

text \<open>An annotation covers display line \<open>n\<close> (lines are numbered from 1).\<close>

definition covers :: "decoration \<Rightarrow> nat \<Rightarrow> bool" where
  "covers d n \<longleftrightarrow>
     startLineNumber (lines_d d) \<le> n \<and> n \<le> endLineNumber (lines_d d)"

text \<open>The annotation that a display line of a given origin is to carry, if any.\<close>

fun annotationFor :: "origin \<Rightarrow> nat \<Rightarrow> decoration list" where
  "annotationFor HunkHeader n = [hunkHeaderDecoration n]"
| "annotationFor Deleted n = [deletedDecoration n]"
| "annotationFor Added n = [addedDecoration n]"
| "annotationFor Context n = []"

text \<open>The annotations of source lines displayed on the lines \<open>n + 1\<close>, \<open>n + 2\<close>, ...\<close>

fun annotate :: "nat \<Rightarrow> jsstring list \<Rightarrow> decoration list" where
  "annotate n [] = []"
| "annotate n (l # ls) = annotationFor (originOf l) (Suc n) @ annotate (Suc n) ls"

text \<open>The source lines that the loop displays when it starts with the hunk flag \<open>h\<close>.\<close>

definition loopBody :: "bool \<Rightarrow> jsstring list \<Rightarrow> jsstring list" where
  "loopBody h ls =
     (if h then filter (\<lambda>l. \<not> isDiffMetadata l) ls else displayedSourceLines ls)"









section \<open>Strings and leftmost matching\<close>

lemma includesStr_iff: "includesStr s p \<longleftrightarrow> sublist p s"
  by (induction s) (auto simp: startsWith_def sublist_Cons_right)


lemma firstMatch_SomeD:
  "firstMatch m s = Some r \<Longrightarrow>
   \<exists>pre suf. s = pre @ suf \<and> m suf = Some r
     \<and> (\<forall>pre' suf'. s = pre' @ suf' \<and> length pre' < length pre \<longrightarrow> m suf' = None)"
proof (induction s)
  case Nil
  then show ?case by simp
next
  case (Cons c cs)
  show ?case
  proof (cases "m (c # cs)")
    case (Some a)
    with Cons.prems have "m (c # cs) = Some r" by simp
    then have "c # cs = [] @ (c # cs) \<and> m (c # cs) = Some r
      \<and> (\<forall>pre' suf'. c # cs = pre' @ suf' \<and> length pre' < length ([]::jsstring) \<longrightarrow> m suf' = None)"
      by simp
    then show ?thesis by blast
  next
    case None
    with Cons.prems have "firstMatch m cs = Some r" by simp
    from Cons.IH[OF this] obtain pre suf where ps: "cs = pre @ suf" "m suf = Some r"
      "\<forall>pre' suf'. cs = pre' @ suf' \<and> length pre' < length pre \<longrightarrow> m suf' = None"
      by blast
    have "\<forall>pre' suf'. c # cs = pre' @ suf' \<and> length pre' < length (c # pre) \<longrightarrow> m suf' = None"
    proof (intro allI impI)
      fix pre' suf'
      assume a: "c # cs = pre' @ suf' \<and> length pre' < length (c # pre)"
      show "m suf' = None"
      proof (cases pre')
        case Nil
        with a None show ?thesis by simp
      next
        case (Cons d ds)
        with a have "cs = ds @ suf'" "length ds < length pre" by auto
        with ps(3) show ?thesis by blast
      qed
    qed
    moreover have "c # cs = (c # pre) @ suf" using ps(1) by simp
    ultimately show ?thesis using ps(2) by blast
  qed
qed


section \<open>The early returns\<close>

lemmas evals = js_def startsWith_def isWhiteSpace_def isLineTerminator_def LF_def Let_def
  substring1_def matchFilePattern_def filePatternAt_def renameMatch_def renameAt_def
  bannerLines_def renameBanner_def arrow_def

lemma filePatternAt_Nil: "filePatternAt p [] = None"
  by (simp add: filePatternAt_def startsWith_def js_def)

lemma matchFilePattern_Nil: "matchFilePattern [] p = None"
  by (simp add: matchFilePattern_def filePatternAt_Nil)



lemma parseDiffWithColors_Some:
  assumes "filePath \<noteq> []" "matchFilePattern fullDiff filePath = Some fileDiff"
  shows "parseDiffWithColors con fullDiff filePath =
    (Some (if includesStr fileDiff (js ''Binary files'') then binaryPlaceholder
           else if includesStr fileDiff (js ''deleted file mode'') then deletedPlaceholder
           else renderFragment fileDiff), con)"
proof -
  have "fullDiff \<noteq> []" using assms(2) matchFilePattern_Nil by auto
  then show ?thesis using assms
    by (simp add: parseDiffWithColors_def tryParseDiffWithColors_def catchParseDiffWithColors_def)
qed

lemma parseDiffWithColors_None:
  "matchFilePattern fullDiff filePath = None \<Longrightarrow> parseDiffWithColors con fullDiff filePath = (None, con)"
  by (simp add: parseDiffWithColors_def tryParseDiffWithColors_def catchParseDiffWithColors_def)


text \<open>
  Claim C9. An empty diff or an empty file path makes both functions return null at once:
  the guard is the first statement of each, in front of the \<^verbatim>\<open>try\<close> block. The last
  conjunct shows that the guard is what decides: with an empty path the pattern itself
  would match any file header.
\<close>

theorem empty_argument_returns_null:
  "parseDiffForFile con [] filePath = (None, con)
   \<and> parseDiffForFile con fullDiff [] = (None, con)
   \<and> parseDiffWithColors con [] filePath = (None, con)
   \<and> parseDiffWithColors con fullDiff [] = (None, con)
   \<and> matchFilePattern (js ''diff --git a/x b/x'') [] \<noteq> None"
  by (simp add: parseDiffForFile_def parseDiffWithColors_def evals)


text \<open>
  Claim C4. When the extracted fragment contains \<^verbatim>\<open>Binary files\<close> anywhere, the result is
  the binary placeholder with no decorations, whatever else the fragment holds; when it
  contains \<^verbatim>\<open>deleted file mode\<close> and not the binary marker, which is tested first, the
  result is the deletion placeholder with no decorations.
\<close>

theorem binary_then_deleted_placeholder:
  assumes "filePath \<noteq> []" and "matchFilePattern fullDiff filePath = Some fileDiff"
  shows "(sublist (js ''Binary files'') fileDiff \<longrightarrow>
            fst (parseDiffWithColors con fullDiff filePath)
              = Some \<lparr>content = js ''Binary file - no preview available'', decorations = []\<rparr>)
       \<and> (sublist (js ''deleted file mode'') fileDiff \<and> \<not> sublist (js ''Binary files'') fileDiff \<longrightarrow>
            fst (parseDiffWithColors con fullDiff filePath)
              = Some \<lparr>content = js ''File was deleted in this PR'', decorations = []\<rparr>)"
  using parseDiffWithColors_Some[OF assms]
  by (simp add: includesStr_iff binaryPlaceholder_def deletedPlaceholder_def)

theorem binary_then_deleted_placeholder_witness:
  "js ''p'' \<noteq> []
   \<and> matchFilePattern (js ''diff --git a/p b/p\<newline>Binary files differ\<newline>deleted file mode'') (js ''p'')
       = Some (js ''diff --git a/p b/p\<newline>Binary files differ\<newline>deleted file mode'')
   \<and> sublist (js ''Binary files'') (js ''diff --git a/p b/p\<newline>Binary files differ\<newline>deleted file mode'')
   \<and> fst (parseDiffWithColors [] (js ''diff --git a/p b/p\<newline>Binary files differ\<newline>deleted file mode'') (js ''p''))
       = Some \<lparr>content = js ''Binary file - no preview available'', decorations = []\<rparr>
   \<and> matchFilePattern (js ''diff --git a/p b/p\<newline>deleted file mode 100644\<newline>@@ -1 +0,0 @@\<newline>-x'') (js ''p'')
       = Some (js ''diff --git a/p b/p\<newline>deleted file mode 100644\<newline>@@ -1 +0,0 @@\<newline>-x'')
   \<and> sublist (js ''deleted file mode'') (js ''diff --git a/p b/p\<newline>deleted file mode 100644\<newline>@@ -1 +0,0 @@\<newline>-x'')
   \<and> \<not> sublist (js ''Binary files'') (js ''diff --git a/p b/p\<newline>deleted file mode 100644\<newline>@@ -1 +0,0 @@\<newline>-x'')
   \<and> fst (parseDiffWithColors [] (js ''diff --git a/p b/p\<newline>deleted file mode 100644\<newline>@@ -1 +0,0 @@\<newline>-x'') (js ''p''))
       = Some \<lparr>content = js ''File was deleted in this PR'', decorations = []\<rparr>"
proof -
  have m1: "matchFilePattern (js ''diff --git a/p b/p\<newline>Binary files differ\<newline>deleted file mode'') (js ''p'')
       = Some (js ''diff --git a/p b/p\<newline>Binary files differ\<newline>deleted file mode'')"
    by (simp add: evals)
  have m2: "matchFilePattern (js ''diff --git a/p b/p\<newline>deleted file mode 100644\<newline>@@ -1 +0,0 @@\<newline>-x'') (js ''p'')
       = Some (js ''diff --git a/p b/p\<newline>deleted file mode 100644\<newline>@@ -1 +0,0 @@\<newline>-x'')"
    by (simp add: evals)
  have p: "js ''p'' \<noteq> []" by (simp add: js_def)
  have s1: "sublist (js ''Binary files'') (js ''diff --git a/p b/p\<newline>Binary files differ\<newline>deleted file mode'')"
    unfolding includesStr_iff[symmetric] by (simp add: evals)
  have s2: "sublist (js ''deleted file mode'') (js ''diff --git a/p b/p\<newline>deleted file mode 100644\<newline>@@ -1 +0,0 @@\<newline>-x'')"
    unfolding includesStr_iff[symmetric] by (simp add: evals)
  have s3: "\<not> sublist (js ''Binary files'') (js ''diff --git a/p b/p\<newline>deleted file mode 100644\<newline>@@ -1 +0,0 @@\<newline>-x'')"
    unfolding includesStr_iff[symmetric] by (simp add: evals)
  show ?thesis
    using binary_then_deleted_placeholder[OF p m1, of "[]"]
      binary_then_deleted_placeholder[OF p m2, of "[]"] p m1 m2 s1 s2 s3
    by blast
qed

section \<open>No header, no result\<close>










section \<open>Matching the requested path\<close>

lemmas wrapper_evals = parseDiffWithColors_def tryParseDiffWithColors_def
  catchParseDiffWithColors_def renderFragment_def parseDiffForFile_def
  tryParseDiffForFile_def catchParseDiffForFile_def

lemmas deco_evals = hunkHeaderDecoration_def addedDecoration_def deletedDecoration_def
  binaryPlaceholder_def deletedPlaceholder_def emptyPlaceholder_def

text \<open>
  Claim C1. The pattern has nothing after the escaped path that ends the header line, so a
  requested path selects the section of any file whose new path starts with it: asked for
  \<^verbatim>\<open>a.ts\<close> on a diff that holds only \<^verbatim>\<open>a.ts.bak\<close>, both functions return the section of
  \<^verbatim>\<open>a.ts.bak\<close> and not null.
\<close>

theorem prefix_path_selects_longer_path:
  "fst (parseDiffWithColors con
          (js ''diff --git a/a.ts.bak b/a.ts.bak\<newline>@@ -1 +1 @@\<newline>-old\<newline>+new'') (js ''a.ts''))
     = Some \<lparr>content = js ''@@ -1 +1 @@\<newline>old\<newline>new'',
             decorations = [hunkHeaderDecoration 1, deletedDecoration 2, addedDecoration 3]\<rparr>
   \<and> fst (parseDiffForFile con
          (js ''diff --git a/a.ts.bak b/a.ts.bak\<newline>@@ -1 +1 @@\<newline>-old\<newline>+new'') (js ''a.ts''))
     = Some \<lparr>original = js ''old'', modified = js ''new''\<rparr>"
proof -
  have m: "matchFilePattern
      (js ''diff --git a/a.ts.bak b/a.ts.bak\<newline>@@ -1 +1 @@\<newline>-old\<newline>+new'') (js ''a.ts'')
     = Some (js ''diff --git a/a.ts.bak b/a.ts.bak\<newline>@@ -1 +1 @@\<newline>-old\<newline>+new'')"
    by (simp add: evals)
  have l: "splitLines (js ''diff --git a/a.ts.bak b/a.ts.bak\<newline>@@ -1 +1 @@\<newline>-old\<newline>+new'')
     = [js ''diff --git a/a.ts.bak b/a.ts.bak'', js ''@@ -1 +1 @@'', js ''-old'', js ''+new'']"
    by (simp add: js_def LF_def)
  have b: "bannerLines (js ''diff --git a/a.ts.bak b/a.ts.bak\<newline>@@ -1 +1 @@\<newline>-old\<newline>+new'') = []"
    by (simp add: evals)
  have i1: "\<not> includesStr (js ''diff --git a/a.ts.bak b/a.ts.bak\<newline>@@ -1 +1 @@\<newline>-old\<newline>+new'')
     (js ''Binary files'')"
    by (simp add: evals)
  have i2: "\<not> includesStr (js ''diff --git a/a.ts.bak b/a.ts.bak\<newline>@@ -1 +1 @@\<newline>-old\<newline>+new'')
     (js ''deleted file mode'')"
    by (simp add: evals)
  have c: "foldl colorLine (colorLoopInit [])
       [js ''diff --git a/a.ts.bak b/a.ts.bak'', js ''@@ -1 +1 @@'', js ''-old'', js ''+new'']
     = \<lparr>lineNumber = 3, inHunk = True,
        contentLines = [js ''@@ -1 +1 @@'', js ''old'', js ''new''],
        decorationList = [hunkHeaderDecoration 1, deletedDecoration 2, addedDecoration 3]\<rparr>"
    by (simp add: colorLoopInit_def colorLine_def isDiffMetadata_def evals deco_evals)
  have f: "foldl fileLine \<lparr>inHunkF = False, originalLines = [], modifiedLines = []\<rparr>
       [js ''diff --git a/a.ts.bak b/a.ts.bak'', js ''@@ -1 +1 @@'', js ''-old'', js ''+new'']
     = \<lparr>inHunkF = True, originalLines = [js ''old''], modifiedLines = [js ''new'']\<rparr>"
    by (simp add: fileLine_def evals)
  have c': "foldl colorLine
       (colorLoopInit (bannerLines (js ''diff --git a/a.ts.bak b/a.ts.bak\<newline>@@ -1 +1 @@\<newline>-old\<newline>+new'')))
       (splitLines (js ''diff --git a/a.ts.bak b/a.ts.bak\<newline>@@ -1 +1 @@\<newline>-old\<newline>+new''))
     = \<lparr>lineNumber = 3, inHunk = True,
        contentLines = [js ''@@ -1 +1 @@'', js ''old'', js ''new''],
        decorationList = [hunkHeaderDecoration 1, deletedDecoration 2, addedDecoration 3]\<rparr>"
    unfolding b l by (rule c)
  have f': "foldl fileLine \<lparr>inHunkF = False, originalLines = [], modifiedLines = []\<rparr>
       (splitLines (js ''diff --git a/a.ts.bak b/a.ts.bak\<newline>@@ -1 +1 @@\<newline>-old\<newline>+new''))
     = \<lparr>inHunkF = True, originalLines = [js ''old''], modifiedLines = [js ''new'']\<rparr>"
    unfolding l by (rule f)
  have n: "js ''diff --git a/a.ts.bak b/a.ts.bak\<newline>@@ -1 +1 @@\<newline>-old\<newline>+new'' \<noteq> []" "js ''a.ts'' \<noteq> []"
    by (simp_all add: js_def)
  show ?thesis
    by (simp add: wrapper_evals m i1 i2 c' f' n) (simp add: js_def LF_def)
qed

section \<open>Rendering a fragment\<close>

lemma parseDiffWithColors_render:
  assumes "filePath \<noteq> []"
    and "matchFilePattern fullDiff filePath = Some fileDiff"
    and "\<not> includesStr fileDiff (js ''Binary files'')"
    and "\<not> includesStr fileDiff (js ''deleted file mode'')"
  shows "parseDiffWithColors con fullDiff filePath = (Some (renderFragment fileDiff), con)"
  using parseDiffWithColors_Some[OF assms(1,2)] assms(3,4) by simp

lemma renderFragment_eval:
  assumes "bannerLines fileDiff = b" and "splitLines fileDiff = ls"
    and "foldl colorLine (colorLoopInit b) ls = st"
  shows "renderFragment fileDiff =
    (if contentLines st = [] then emptyPlaceholder
     else \<lparr>content = joinLines (contentLines st), decorations = decorationList st\<rparr>)"
  using assms by (simp add: renderFragment_def)

text \<open>
  Claim C10. The two markers are looked for in the whole fragment. Here the only line that
  contains \<^verbatim>\<open>deleted file mode\<close> (and, in the second diff, \<^verbatim>\<open>Binary files\<close>) is an added
  line of a well-formed hunk; rendering the hunk would give three lines and two
  decorations, and the result is the deletion (the binary) placeholder with none.
\<close>

theorem marker_in_hunk_body_gives_placeholder:
  "matchFilePattern (js ''diff --git a/n b/n\<newline>@@ -1 +1,2 @@\<newline> ok\<newline>+deleted file mode'') (js ''n'')
     = Some (js ''diff --git a/n b/n\<newline>@@ -1 +1,2 @@\<newline> ok\<newline>+deleted file mode'')
   \<and> filter (\<lambda>l. includesStr l (js ''deleted file mode''))
        (splitLines (js ''diff --git a/n b/n\<newline>@@ -1 +1,2 @@\<newline> ok\<newline>+deleted file mode''))
     = [js ''+deleted file mode'']
   \<and> renderFragment (js ''diff --git a/n b/n\<newline>@@ -1 +1,2 @@\<newline> ok\<newline>+deleted file mode'')
     = \<lparr>content = js ''@@ -1 +1,2 @@\<newline>ok\<newline>deleted file mode'',
        decorations = [hunkHeaderDecoration 1, addedDecoration 3]\<rparr>
   \<and> fst (parseDiffWithColors con
            (js ''diff --git a/n b/n\<newline>@@ -1 +1,2 @@\<newline> ok\<newline>+deleted file mode'') (js ''n''))
     = Some \<lparr>content = js ''File was deleted in this PR'', decorations = []\<rparr>
   \<and> matchFilePattern (js ''diff --git a/n b/n\<newline>@@ -1 +1,2 @@\<newline> ok\<newline>+Binary files'') (js ''n'')
     = Some (js ''diff --git a/n b/n\<newline>@@ -1 +1,2 @@\<newline> ok\<newline>+Binary files'')
   \<and> filter (\<lambda>l. includesStr l (js ''Binary files''))
        (splitLines (js ''diff --git a/n b/n\<newline>@@ -1 +1,2 @@\<newline> ok\<newline>+Binary files''))
     = [js ''+Binary files'']
   \<and> renderFragment (js ''diff --git a/n b/n\<newline>@@ -1 +1,2 @@\<newline> ok\<newline>+Binary files'')
     = \<lparr>content = js ''@@ -1 +1,2 @@\<newline>ok\<newline>Binary files'',
        decorations = [hunkHeaderDecoration 1, addedDecoration 3]\<rparr>
   \<and> fst (parseDiffWithColors con
            (js ''diff --git a/n b/n\<newline>@@ -1 +1,2 @@\<newline> ok\<newline>+Binary files'') (js ''n''))
     = Some \<lparr>content = js ''Binary file - no preview available'', decorations = []\<rparr>"
proof -
  let ?d = "js ''diff --git a/n b/n\<newline>@@ -1 +1,2 @@\<newline> ok\<newline>+deleted file mode''"
  let ?b = "js ''diff --git a/n b/n\<newline>@@ -1 +1,2 @@\<newline> ok\<newline>+Binary files''"
  have p: "js ''n'' \<noteq> []" by (simp add: js_def)
  have md: "matchFilePattern ?d (js ''n'') = Some ?d" by (simp add: evals)
  have mb: "matchFilePattern ?b (js ''n'') = Some ?b" by (simp add: evals)
  have ld: "splitLines ?d
      = [js ''diff --git a/n b/n'', js ''@@ -1 +1,2 @@'', js '' ok'', js ''+deleted file mode'']"
    by (simp add: js_def LF_def)
  have lb: "splitLines ?b
      = [js ''diff --git a/n b/n'', js ''@@ -1 +1,2 @@'', js '' ok'', js ''+Binary files'']"
    by (simp add: js_def LF_def)
  have fd: "filter (\<lambda>l. includesStr l (js ''deleted file mode'')) (splitLines ?d)
      = [js ''+deleted file mode'']"
    unfolding ld by (simp add: evals)
  have fb: "filter (\<lambda>l. includesStr l (js ''Binary files'')) (splitLines ?b)
      = [js ''+Binary files'']"
    unfolding lb by (simp add: evals)
  have bd: "bannerLines ?d = []" by (simp add: evals)
  have bb: "bannerLines ?b = []" by (simp add: evals)
  have cd: "foldl colorLine (colorLoopInit [])
       [js ''diff --git a/n b/n'', js ''@@ -1 +1,2 @@'', js '' ok'', js ''+deleted file mode'']
     = \<lparr>lineNumber = 3, inHunk = True,
        contentLines = [js ''@@ -1 +1,2 @@'', js ''ok'', js ''deleted file mode''],
        decorationList = [hunkHeaderDecoration 1, addedDecoration 3]\<rparr>"
    by (simp add: colorLoopInit_def colorLine_def isDiffMetadata_def evals deco_evals)
  have cb: "foldl colorLine (colorLoopInit [])
       [js ''diff --git a/n b/n'', js ''@@ -1 +1,2 @@'', js '' ok'', js ''+Binary files'']
     = \<lparr>lineNumber = 3, inHunk = True,
        contentLines = [js ''@@ -1 +1,2 @@'', js ''ok'', js ''Binary files''],
        decorationList = [hunkHeaderDecoration 1, addedDecoration 3]\<rparr>"
    by (simp add: colorLoopInit_def colorLine_def isDiffMetadata_def evals deco_evals)
  have rd: "renderFragment ?d = \<lparr>content = js ''@@ -1 +1,2 @@\<newline>ok\<newline>deleted file mode'',
        decorations = [hunkHeaderDecoration 1, addedDecoration 3]\<rparr>"
    unfolding renderFragment_eval[OF bd ld cd] by (simp add: js_def LF_def)
  have rb: "renderFragment ?b = \<lparr>content = js ''@@ -1 +1,2 @@\<newline>ok\<newline>Binary files'',
        decorations = [hunkHeaderDecoration 1, addedDecoration 3]\<rparr>"
    unfolding renderFragment_eval[OF bb lb cb] by (simp add: js_def LF_def)
  have id: "includesStr ?d (js ''deleted file mode'')" "\<not> includesStr ?d (js ''Binary files'')"
    by (simp_all add: evals)
  have ib: "includesStr ?b (js ''Binary files'')"
    by (simp add: evals)
  have xd: "fst (parseDiffWithColors con ?d (js ''n''))
      = Some \<lparr>content = js ''File was deleted in this PR'', decorations = []\<rparr>"
    unfolding parseDiffWithColors_Some[OF p md] using id by (simp add: deletedPlaceholder_def)
  have xb: "fst (parseDiffWithColors con ?b (js ''n''))
      = Some \<lparr>content = js ''Binary file - no preview available'', decorations = []\<rparr>"
    unfolding parseDiffWithColors_Some[OF p mb] using ib by (simp add: binaryPlaceholder_def)
  show ?thesis
    using md fd rd xd mb fb rb xb by blast
qed

section \<open>The rendering loop\<close>

text \<open>
  The loop of \<^verbatim>\<open>parseDiffWithColors\<close>, with its counter and its hunk flag, appends the
  display text of the displayed source lines and their annotations.
\<close>

lemma foldl_colorLine:
  "foldl colorLine st ls =
     \<lparr>lineNumber = lineNumber st + length (loopBody (inHunk st) ls),
      inHunk = (inHunk st \<or> loopBody (inHunk st) ls \<noteq> []),
      contentLines = contentLines st @ map displayText (loopBody (inHunk st) ls),
      decorationList = decorationList st @ annotate (lineNumber st) (loopBody (inHunk st) ls)\<rparr>"
proof (induction ls arbitrary: st)
  case Nil
  show ?case by (simp add: loopBody_def displayedSourceLines_def)
next
  case (Cons l ls)
  show ?case
    unfolding foldl_Cons Cons.IH
    by (simp add: colorLine_def loopBody_def displayedSourceLines_def originOf_def
        displayText_def Let_def)
qed

lemma renderFragment_eq:
  "renderFragment fileDiff =
     (if bannerLines fileDiff = [] \<and> displayedSourceLines (splitLines fileDiff) = []
      then emptyPlaceholder
      else \<lparr>content = joinLines (bannerLines fileDiff
                 @ map displayText (displayedSourceLines (splitLines fileDiff))),
             decorations = annotate (length (bannerLines fileDiff))
                 (displayedSourceLines (splitLines fileDiff))\<rparr>)"
  by (simp add: renderFragment_def foldl_colorLine colorLoopInit_def loopBody_def Let_def)


subsection \<open>The annotations of displayed lines\<close>

lemma annotationFor_range:
  "d \<in> set (annotationFor c n) \<Longrightarrow>
   startLineNumber (lines_d d) = n \<and> endLineNumber (lines_d d) = n"
  by (cases c) (auto simp: deco_evals)

lemma annotationFor_category:
  "d \<in> set (annotationFor c n) \<Longrightarrow> categoryOf d = c"
  by (cases c) (auto simp: deco_evals categoryOf_def js_def)

lemma annotate_range:
  "d \<in> set (annotate n ls) \<Longrightarrow>
   startLineNumber (lines_d d) = endLineNumber (lines_d d)
   \<and> n < startLineNumber (lines_d d) \<and> startLineNumber (lines_d d) \<le> n + length ls"
proof (induction ls arbitrary: n)
  case Nil
  then show ?case by simp
next
  case (Cons l ls)
  from Cons.prems have "d \<in> set (annotationFor (originOf l) (Suc n)) \<or> d \<in> set (annotate (Suc n) ls)"
    by simp
  then show ?case
  proof
    assume "d \<in> set (annotationFor (originOf l) (Suc n))"
    from annotationFor_range[OF this] show ?thesis by simp
  next
    assume "d \<in> set (annotate (Suc n) ls)"
    from Cons.IH[OF this] show ?thesis by simp
  qed
qed

lemma annotate_sorted:
  "sorted_wrt (\<lambda>d e. endLineNumber (lines_d d) < startLineNumber (lines_d e)) (annotate n ls)"
proof (induction ls arbitrary: n)
  case Nil
  show ?case by simp
next
  case (Cons l ls)
  have "\<forall>d \<in> set (annotationFor (originOf l) (Suc n)). \<forall>e \<in> set (annotate (Suc n) ls).
          endLineNumber (lines_d d) < startLineNumber (lines_d e)"
    using annotationFor_range annotate_range by fastforce
  moreover have "sorted_wrt (\<lambda>d e. endLineNumber (lines_d d) < startLineNumber (lines_d e))
          (annotationFor (originOf l) (Suc n))"
    by (cases "originOf l") simp_all
  ultimately show ?case
    using Cons.IH[of "Suc n"] by (simp add: sorted_wrt_append)
qed

lemma annotate_count:
  assumes "c \<noteq> Context"
  shows "length (filter (\<lambda>d. categoryOf d = c) (annotate n ls))
         = length (filter (\<lambda>l. originOf l = c) ls)"
proof (induction ls arbitrary: n)
  case Nil
  show ?case by simp
next
  case (Cons l ls)
  have "length (filter (\<lambda>d. categoryOf d = c) (annotationFor (originOf l) (Suc n)))
        = (if originOf l = c then 1 else 0)"
    using assms by (cases "originOf l") (auto simp: deco_evals categoryOf_def js_def)
  then show ?case using Cons.IH[of "Suc n"] by simp
qed

lemma annotate_covers:
  assumes "i < length ls"
  shows "filter (\<lambda>d. covers d (n + i + 1)) (annotate n ls)
         = annotationFor (originOf (ls ! i)) (n + i + 1)"
  using assms
proof (induction ls arbitrary: n i)
  case Nil
  then show ?case by simp
next
  case (Cons l ls)
  show ?case
  proof (cases i)
    case 0
    have a: "filter (\<lambda>d. covers d (Suc n)) (annotationFor (originOf l) (Suc n))
             = annotationFor (originOf l) (Suc n)"
      by (rule filter_True) (auto simp: covers_def dest: annotationFor_range)
    have b: "filter (\<lambda>d. covers d (Suc n)) (annotate (Suc n) ls) = []"
      by (rule filter_False) (auto simp: covers_def dest: annotate_range)
    show ?thesis using 0 a b by simp
  next
    case (Suc j)
    with Cons.prems have j: "j < length ls" by simp
    have a: "filter (\<lambda>d. covers d (n + i + 1)) (annotationFor (originOf l) (Suc n)) = []"
      using Suc by (intro filter_False) (auto simp: covers_def dest: annotationFor_range)
    have "n + i + 1 = Suc n + j + 1" using Suc by simp
    then show ?thesis using Cons.IH[OF j, of "Suc n"] a Suc by simp
  qed
qed

lemma annotate_outside:
  assumes "k \<le> n \<or> n + length ls < k"
  shows "filter (\<lambda>d. covers d k) (annotate n ls) = []"
  using assms by (intro filter_False) (auto simp: covers_def dest: annotate_range)

subsection \<open>Lines of the display buffer\<close>

lemma splitLines_no_LF: "LF \<notin> set l \<Longrightarrow> splitLines l = [l]"
  by (induction l) auto

lemma splitLines_append_LF:
  "LF \<notin> set l \<Longrightarrow> splitLines (l @ LF # s) = l # splitLines s"
  by (induction l) auto

lemma splitLines_joinLines:
  "ls \<noteq> [] \<Longrightarrow> \<forall>l \<in> set ls. LF \<notin> set l \<Longrightarrow> splitLines (joinLines ls) = ls"
proof (induction ls rule: joinLines.induct)
  case 1
  then show ?case by simp
next
  case (2 l)
  then show ?case by (simp add: splitLines_no_LF)
next
  case (3 l v va)
  then show ?case by (simp add: splitLines_append_LF)
qed

lemma splitLines_lines: "l \<in> set (splitLines s) \<Longrightarrow> LF \<notin> set l"
proof (induction s arbitrary: l)
  case Nil
  then show ?case by simp
next
  case (Cons c cs)
  then show ?case
    by (cases "splitLines cs") (auto split: if_splits)
qed

lemma joinLines_nonempty: "ls \<noteq> [] \<Longrightarrow> hd ls \<noteq> [] \<Longrightarrow> joinLines ls \<noteq> []"
  by (induction ls rule: joinLines.induct) auto

lemma displayText_subset: "set (displayText l) \<subseteq> set l"
  by (auto simp: displayText_def substring1_def dest: in_set_dropD split: origin.splits)

lemma displayedSourceLines_subset: "set (displayedSourceLines ls) \<subseteq> set ls"
  unfolding displayedSourceLines_def
  by (meson filter_is_subset set_dropWhileD subsetI subset_trans)

lemma displayedSourceLines_hd:
  "displayedSourceLines ls \<noteq> [] \<Longrightarrow> startsWith (hd (displayedSourceLines ls)) (js ''@@'')"
  unfolding displayedSourceLines_def using hd_dropWhile by blast

lemma hunk_header_not_metadata: "startsWith l (js ''@@'') \<Longrightarrow> \<not> isDiffMetadata l"
  by (cases l) (auto simp: isDiffMetadata_def startsWith_def js_def)

lemma displayedSourceLines_Nil_iff:
  "displayedSourceLines ls = [] \<longleftrightarrow> (\<forall>l \<in> set ls. \<not> startsWith l (js ''@@''))"
  unfolding displayedSourceLines_def dropWhile_eq_Nil_conv
  using hunk_header_not_metadata by auto

subsection \<open>The banner\<close>

lemma LF_isLineTerminator: "isLineTerminator LF"
  by (simp add: isLineTerminator_def LF_def)

lemma renameAt_SomeD:
  assumes "renameAt s = Some (old, new)"
  shows "old \<noteq> []" and "new \<noteq> []"
    and "\<forall>c \<in> set old. \<not> isLineTerminator c" and "\<forall>c \<in> set new. \<not> isLineTerminator c"
  using assms
  by (auto simp: renameAt_def Let_def split: if_splits dest: set_takeWhileD)

lemma renameMatch_SomeD:
  assumes "renameMatch fileDiff = Some (old, new)"
  shows "old \<noteq> []" and "new \<noteq> []"
    and "\<forall>c \<in> set old. \<not> isLineTerminator c" and "\<forall>c \<in> set new. \<not> isLineTerminator c"
proof -
  from firstMatch_SomeD[OF assms[unfolded renameMatch_def]]
  obtain suf where "renameAt suf = Some (old, new)" by blast
  from renameAt_SomeD[OF this]
  show "old \<noteq> []" and "new \<noteq> []"
    and "\<forall>c \<in> set old. \<not> isLineTerminator c" and "\<forall>c \<in> set new. \<not> isLineTerminator c"
    by blast+
qed

lemma renameBanner_no_LF:
  assumes "\<forall>c \<in> set old. \<not> isLineTerminator c" and "\<forall>c \<in> set new. \<not> isLineTerminator c"
  shows "LF \<notin> set (renameBanner old new)"
proof -
  have "LF \<notin> set old" "LF \<notin> set new" using assms LF_isLineTerminator by blast+
  then show ?thesis by (auto simp: renameBanner_def js_def arrow_def LF_def)
qed

lemma bannerLines_cases:
  "bannerLines fileDiff = []
   \<or> bannerLines fileDiff = [js ''// New file'', []]
   \<or> (\<exists>old new. renameMatch fileDiff = Some (old, new)
         \<and> bannerLines fileDiff = [renameBanner old new, []])"
  by (auto simp: bannerLines_def split: option.splits)

lemma bannerLines_no_LF: "l \<in> set (bannerLines fileDiff) \<Longrightarrow> LF \<notin> set l"
proof -
  assume l: "l \<in> set (bannerLines fileDiff)"
  consider "bannerLines fileDiff = []" | "bannerLines fileDiff = [js ''// New file'', []]"
    | old new where "renameMatch fileDiff = Some (old, new)"
        "bannerLines fileDiff = [renameBanner old new, []]"
    using bannerLines_cases[of fileDiff] by blast
  then show ?thesis
  proof cases
    case 1
    with l show ?thesis by simp
  next
    case 2
    with l show ?thesis by (auto simp: js_def LF_def)
  next
    case 3
    have "LF \<notin> set (renameBanner old new)"
      using renameBanner_no_LF renameMatch_SomeD(3,4)[OF 3(1)] by blast
    with l 3(2) show ?thesis by auto
  qed
qed

lemma bannerLines_hd: "bannerLines fileDiff \<noteq> [] \<Longrightarrow> hd (bannerLines fileDiff) \<noteq> []"
  using bannerLines_cases[of fileDiff] by (auto simp: js_def renameBanner_def)

subsection \<open>The rendered fragment\<close>

lemma renderFragment_lines:
  assumes "bannerLines fileDiff \<noteq> [] \<or> displayedSourceLines (splitLines fileDiff) \<noteq> []"
  shows "splitLines (content (renderFragment fileDiff))
           = bannerLines fileDiff @ map displayText (displayedSourceLines (splitLines fileDiff))"
    and "decorations (renderFragment fileDiff)
           = annotate (length (bannerLines fileDiff)) (displayedSourceLines (splitLines fileDiff))"
    and "content (renderFragment fileDiff) \<noteq> []"
proof -
  let ?b = "bannerLines fileDiff"
  let ?src = "displayedSourceLines (splitLines fileDiff)"
  have r: "renderFragment fileDiff
      = \<lparr>content = joinLines (?b @ map displayText ?src),
         decorations = annotate (length ?b) ?src\<rparr>"
    using assms by (auto simp: renderFragment_eq)
  have "\<forall>l \<in> set ?src. LF \<notin> set l"
    using displayedSourceLines_subset splitLines_lines by blast
  then have "\<forall>l \<in> set (map displayText ?src). LF \<notin> set l"
    using displayText_subset by fastforce
  then have nolf: "\<forall>l \<in> set (?b @ map displayText ?src). LF \<notin> set l"
    using bannerLines_no_LF by auto
  have ne: "?b @ map displayText ?src \<noteq> []" using assms by auto
  show "splitLines (content (renderFragment fileDiff)) = ?b @ map displayText ?src"
    using splitLines_joinLines[OF ne nolf] by (simp add: r)
  show "decorations (renderFragment fileDiff) = annotate (length ?b) ?src"
    by (simp add: r)
  have "hd (?b @ map displayText ?src) \<noteq> []"
  proof (cases "?b = []")
    case True
    with assms have s: "?src \<noteq> []" by simp
    from displayedSourceLines_hd[OF s] have h: "startsWith (hd ?src) (js ''@@'')" .
    then have "displayText (hd ?src) = hd ?src" by (simp add: displayText_def originOf_def)
    moreover have "hd ?src \<noteq> []" using h by (auto simp: startsWith_def js_def)
    ultimately show ?thesis using True s by (simp add: hd_map)
  next
    case False
    then show ?thesis using bannerLines_hd by simp
  qed
  from joinLines_nonempty[OF ne this]
  show "content (renderFragment fileDiff) \<noteq> []" by (simp add: r)
qed

lemma renderFragment_empty:
  assumes "bannerLines fileDiff = []" and "displayedSourceLines (splitLines fileDiff) = []"
  shows "renderFragment fileDiff = emptyPlaceholder"
  using assms by (simp add: renderFragment_eq)

section \<open>Properties of the rendered diff\<close>

lemma parseDiffWithColors_SomeD:
  assumes "fst (parseDiffWithColors con fullDiff filePath) = Some r"
  shows "\<exists>fileDiff. filePath \<noteq> [] \<and> matchFilePattern fullDiff filePath = Some fileDiff
           \<and> r = (if includesStr fileDiff (js ''Binary files'') then binaryPlaceholder
                  else if includesStr fileDiff (js ''deleted file mode'') then deletedPlaceholder
                  else renderFragment fileDiff)"
proof (cases "matchFilePattern fullDiff filePath")
  case None
  with assms show ?thesis by (simp add: parseDiffWithColors_None)
next
  case (Some fileDiff)
  have p: "filePath \<noteq> []" using assms by (auto simp: parseDiffWithColors_def)
  from parseDiffWithColors_Some[OF p Some, of con] assms Some p show ?thesis by auto
qed

text \<open>
  Claim C7. For a matched section that is neither binary nor deleted: when the loop leaves
  the display buffer empty, the result is the one line \<^verbatim>\<open>No changes to display\<close> with no
  decorations; the buffer is empty exactly when there is no banner and no line of the
  section starts with \<^verbatim>\<open>@@\<close>; and the content returned is never the empty string.
\<close>

theorem empty_buffer_gives_placeholder:
  assumes "filePath \<noteq> []" and "matchFilePattern fullDiff filePath = Some fileDiff"
    and "\<not> sublist (js ''Binary files'') fileDiff"
    and "\<not> sublist (js ''deleted file mode'') fileDiff"
  shows "(contentLines (foldl colorLine (colorLoopInit (bannerLines fileDiff))
                         (splitLines fileDiff)) = [] \<longrightarrow>
            fst (parseDiffWithColors con fullDiff filePath)
              = Some \<lparr>content = js ''No changes to display'', decorations = []\<rparr>)
       \<and> (contentLines (foldl colorLine (colorLoopInit (bannerLines fileDiff))
                         (splitLines fileDiff)) = [] \<longleftrightarrow>
            bannerLines fileDiff = []
            \<and> (\<forall>l \<in> set (splitLines fileDiff). \<not> startsWith l (js ''@@'')))
       \<and> (\<exists>r. fst (parseDiffWithColors con fullDiff filePath) = Some r \<and> content r \<noteq> [])"
proof -
  let ?b = "bannerLines fileDiff"
  let ?src = "displayedSourceLines (splitLines fileDiff)"
  have res: "fst (parseDiffWithColors con fullDiff filePath) = Some (renderFragment fileDiff)"
    using parseDiffWithColors_render[OF assms(1,2)] assms(3,4) by (simp add: includesStr_iff)
  have buf: "contentLines (foldl colorLine (colorLoopInit ?b) (splitLines fileDiff))
             = ?b @ map displayText ?src"
    by (simp add: foldl_colorLine colorLoopInit_def loopBody_def)
  have one: "contentLines (foldl colorLine (colorLoopInit ?b) (splitLines fileDiff)) = [] \<longrightarrow>
            fst (parseDiffWithColors con fullDiff filePath)
              = Some \<lparr>content = js ''No changes to display'', decorations = []\<rparr>"
    using renderFragment_empty[of fileDiff] by (simp add: buf res emptyPlaceholder_def)
  have two: "contentLines (foldl colorLine (colorLoopInit ?b) (splitLines fileDiff)) = [] \<longleftrightarrow>
            ?b = [] \<and> (\<forall>l \<in> set (splitLines fileDiff). \<not> startsWith l (js ''@@''))"
    by (simp add: buf displayedSourceLines_Nil_iff)
  have "content (renderFragment fileDiff) \<noteq> []"
  proof (cases "?b = [] \<and> ?src = []")
    case True
    then show ?thesis by (simp add: renderFragment_empty emptyPlaceholder_def js_def)
  next
    case False
    then show ?thesis using renderFragment_lines(3)[of fileDiff] by blast
  qed
  then have three: "\<exists>r. fst (parseDiffWithColors con fullDiff filePath) = Some r \<and> content r \<noteq> []"
    using res by simp
  from one two three show ?thesis by blast
qed

theorem empty_buffer_gives_placeholder_witness:
  "js ''e'' \<noteq> []
   \<and> matchFilePattern (js ''diff --git a/e b/e\<newline>index 1..2\<newline>--- a/e\<newline>+++ b/e'') (js ''e'')
       = Some (js ''diff --git a/e b/e\<newline>index 1..2\<newline>--- a/e\<newline>+++ b/e'')
   \<and> \<not> sublist (js ''Binary files'') (js ''diff --git a/e b/e\<newline>index 1..2\<newline>--- a/e\<newline>+++ b/e'')
   \<and> \<not> sublist (js ''deleted file mode'') (js ''diff --git a/e b/e\<newline>index 1..2\<newline>--- a/e\<newline>+++ b/e'')
   \<and> contentLines (foldl colorLine
          (colorLoopInit (bannerLines (js ''diff --git a/e b/e\<newline>index 1..2\<newline>--- a/e\<newline>+++ b/e'')))
          (splitLines (js ''diff --git a/e b/e\<newline>index 1..2\<newline>--- a/e\<newline>+++ b/e''))) = []
   \<and> fst (parseDiffWithColors [] (js ''diff --git a/e b/e\<newline>index 1..2\<newline>--- a/e\<newline>+++ b/e'') (js ''e''))
       = Some \<lparr>content = js ''No changes to display'', decorations = []\<rparr>"
proof -
  let ?d = "js ''diff --git a/e b/e\<newline>index 1..2\<newline>--- a/e\<newline>+++ b/e''"
  have p: "js ''e'' \<noteq> []" by (simp add: js_def)
  have m: "matchFilePattern ?d (js ''e'') = Some ?d" by (simp add: evals)
  have s1: "\<not> sublist (js ''Binary files'') ?d"
    unfolding includesStr_iff[symmetric] by (simp add: evals)
  have s2: "\<not> sublist (js ''deleted file mode'') ?d"
    unfolding includesStr_iff[symmetric] by (simp add: evals)
  have b: "bannerLines ?d = []" by (simp add: evals)
  have l: "splitLines ?d = [js ''diff --git a/e b/e'', js ''index 1..2'', js ''--- a/e'', js ''+++ b/e'']"
    by (simp add: js_def LF_def)
  have c: "contentLines (foldl colorLine (colorLoopInit [])
      [js ''diff --git a/e b/e'', js ''index 1..2'', js ''--- a/e'', js ''+++ b/e'']) = []"
    by (simp add: colorLoopInit_def colorLine_def isDiffMetadata_def evals)
  have e: "contentLines (foldl colorLine (colorLoopInit (bannerLines ?d)) (splitLines ?d)) = []"
    unfolding b l by (rule c)
  from empty_buffer_gives_placeholder[OF p m s1 s2, of "[]"] e p m s1 s2
  show ?thesis by blast
qed

lemma annotate_category:
  "d \<in> set (annotate n ls) \<Longrightarrow> categoryOf d \<in> {HunkHeader, Deleted, Added}"
proof (induction ls arbitrary: n)
  case Nil
  then show ?case by simp
next
  case (Cons l ls)
  from Cons.prems have "d \<in> set (annotationFor (originOf l) (Suc n)) \<or> d \<in> set (annotate (Suc n) ls)"
    by simp
  then show ?case
  proof
    assume a: "d \<in> set (annotationFor (originOf l) (Suc n))"
    then have "originOf l \<noteq> Context" by auto
    with annotationFor_category[OF a] show ?thesis by (cases "originOf l") auto
  next
    assume "d \<in> set (annotate (Suc n) ls)"
    from Cons.IH[OF this] show ?thesis .
  qed
qed

text \<open>
  Claim C2. Let the result be none of the placeholders. Its content, split at line feeds,
  is the banner (if any) followed by one display line for each displayed source line, so
  the display line of the \<open>i\<close>-th displayed source line is line \<open>length banner + i + 1\<close>.
  For each of the categories hunk header, deleted and added, the number of annotations of
  the category is the number of displayed source lines of that origin, and every
  annotation has one of the three categories. A display line that comes from a \<^verbatim>\<open>@@\<close>,
  \<^verbatim>\<open>-\<close> or \<^verbatim>\<open>+\<close> line is covered by exactly one annotation, of its category; a context line
  and a banner line by none. Every annotation spans one line, and the ranges are pairwise
  disjoint (they increase strictly along the list).
\<close>

theorem annotations_match_display_lines:
  assumes "fst (parseDiffWithColors con fullDiff filePath) = Some r"
    and "r \<notin> {binaryPlaceholder, deletedPlaceholder, emptyPlaceholder, errorPlaceholder}"
  shows "\<exists>fileDiff. matchFilePattern fullDiff filePath = Some fileDiff \<and>
     (let banner = bannerLines fileDiff;
          src = displayedSourceLines (splitLines fileDiff)
      in splitLines (content r) = banner @ map displayText src
       \<and> (\<forall>c \<in> {HunkHeader, Deleted, Added}.
            length (filter (\<lambda>d. categoryOf d = c) (decorations r))
              = length (filter (\<lambda>l. originOf l = c) src))
       \<and> (\<forall>d \<in> set (decorations r). categoryOf d \<in> {HunkHeader, Deleted, Added})
       \<and> (\<forall>i < length src. originOf (src ! i) \<noteq> Context \<longrightarrow>
            (\<exists>d. filter (\<lambda>d. covers d (length banner + i + 1)) (decorations r) = [d]
                 \<and> categoryOf d = originOf (src ! i)))
       \<and> (\<forall>i < length src. originOf (src ! i) = Context \<longrightarrow>
            filter (\<lambda>d. covers d (length banner + i + 1)) (decorations r) = [])
       \<and> (\<forall>k \<le> length banner. filter (\<lambda>d. covers d k) (decorations r) = [])
       \<and> (\<forall>d \<in> set (decorations r).
            startLineNumber (lines_d d) = endLineNumber (lines_d d))
       \<and> sorted_wrt (\<lambda>d e. endLineNumber (lines_d d) < startLineNumber (lines_d e))
            (decorations r))"
proof -
  from parseDiffWithColors_SomeD[OF assms(1)] obtain fileDiff where
    m: "matchFilePattern fullDiff filePath = Some fileDiff" and
    r: "r = (if includesStr fileDiff (js ''Binary files'') then binaryPlaceholder
             else if includesStr fileDiff (js ''deleted file mode'') then deletedPlaceholder
             else renderFragment fileDiff)"
    by blast
  let ?b = "bannerLines fileDiff"
  let ?src = "displayedSourceLines (splitLines fileDiff)"
  from r assms(2) have rf: "r = renderFragment fileDiff"
    by (auto split: if_splits)
  with assms(2) have ne: "?b \<noteq> [] \<or> ?src \<noteq> []"
    using renderFragment_empty[of fileDiff] by auto
  have lines: "splitLines (content r) = ?b @ map displayText ?src"
    and decs: "decorations r = annotate (length ?b) ?src"
    using renderFragment_lines(1,2)[OF ne] by (simp_all add: rf)
  have counts: "\<forall>c \<in> {HunkHeader, Deleted, Added}.
        length (filter (\<lambda>d. categoryOf d = c) (decorations r))
          = length (filter (\<lambda>l. originOf l = c) ?src)"
    unfolding decs by (auto intro: annotate_count)
  have cats: "\<forall>d \<in> set (decorations r). categoryOf d \<in> {HunkHeader, Deleted, Added}"
    unfolding decs
  proof
    fix d assume "d \<in> set (annotate (length ?b) ?src)"
    then show "categoryOf d \<in> {HunkHeader, Deleted, Added}"
      using annotate_category by blast
  qed
  have one: "\<forall>i < length ?src. originOf (?src ! i) \<noteq> Context \<longrightarrow>
        (\<exists>d. filter (\<lambda>d. covers d (length ?b + i + 1)) (decorations r) = [d]
             \<and> categoryOf d = originOf (?src ! i))"
  proof (intro allI impI)
    fix i assume i: "i < length ?src" and o: "originOf (?src ! i) \<noteq> Context"
    have f: "filter (\<lambda>d. covers d (length ?b + i + 1)) (decorations r)
          = annotationFor (originOf (?src ! i)) (length ?b + i + 1)"
      unfolding decs by (rule annotate_covers[OF i])
    from o obtain d where d: "annotationFor (originOf (?src ! i)) (length ?b + i + 1) = [d]"
      by (cases "originOf (?src ! i)") auto
    then have "categoryOf d = originOf (?src ! i)"
      using annotationFor_category[of d "originOf (?src ! i)" "length ?b + i + 1"] by simp
    with f d show "\<exists>d. filter (\<lambda>d. covers d (length ?b + i + 1)) (decorations r) = [d]
             \<and> categoryOf d = originOf (?src ! i)" by simp
  qed
  have none: "\<forall>i < length ?src. originOf (?src ! i) = Context \<longrightarrow>
        filter (\<lambda>d. covers d (length ?b + i + 1)) (decorations r) = []"
  proof (intro allI impI)
    fix i assume i: "i < length ?src" and o: "originOf (?src ! i) = Context"
    have "filter (\<lambda>d. covers d (length ?b + i + 1)) (decorations r)
          = annotationFor (originOf (?src ! i)) (length ?b + i + 1)"
      unfolding decs by (rule annotate_covers[OF i])
    with o show "filter (\<lambda>d. covers d (length ?b + i + 1)) (decorations r) = []" by simp
  qed
  have ban: "\<forall>k \<le> length ?b. filter (\<lambda>d. covers d k) (decorations r) = []"
    unfolding decs by (simp add: annotate_outside)
  have single: "\<forall>d \<in> set (decorations r).
        startLineNumber (lines_d d) = endLineNumber (lines_d d)"
    unfolding decs using annotate_range by blast
  have sorted: "sorted_wrt (\<lambda>d e. endLineNumber (lines_d d) < startLineNumber (lines_d e))
        (decorations r)"
    unfolding decs by (rule annotate_sorted)
  from m lines counts cats one none ban single sorted show ?thesis
    by (simp add: Let_def)
qed


theorem annotations_match_display_lines_witness:
  "fst (parseDiffWithColors [] (js ''diff --git a/f b/f\<newline>@@ -1,2 +1,2 @@\<newline> c\<newline>-o\<newline>+n'') (js ''f''))
     = Some \<lparr>content = js ''@@ -1,2 +1,2 @@\<newline>c\<newline>o\<newline>n'',
             decorations = [hunkHeaderDecoration 1, deletedDecoration 3, addedDecoration 4]\<rparr>
   \<and> \<lparr>content = js ''@@ -1,2 +1,2 @@\<newline>c\<newline>o\<newline>n'',
       decorations = [hunkHeaderDecoration 1, deletedDecoration 3, addedDecoration 4]\<rparr>
       \<notin> {binaryPlaceholder, deletedPlaceholder, emptyPlaceholder, errorPlaceholder}
   \<and> (\<exists>fileDiff.
        matchFilePattern (js ''diff --git a/f b/f\<newline>@@ -1,2 +1,2 @@\<newline> c\<newline>-o\<newline>+n'') (js ''f'')
          = Some fileDiff
        \<and> splitLines (js ''@@ -1,2 +1,2 @@\<newline>c\<newline>o\<newline>n'')
          = bannerLines fileDiff @ map displayText (displayedSourceLines (splitLines fileDiff))
        \<and> length (filter (\<lambda>l. originOf l = Added) (displayedSourceLines (splitLines fileDiff)))
          = length (filter (\<lambda>d. categoryOf d = Added)
              [hunkHeaderDecoration 1, deletedDecoration 3, addedDecoration 4]))"
proof -
  let ?d = "js ''diff --git a/f b/f\<newline>@@ -1,2 +1,2 @@\<newline> c\<newline>-o\<newline>+n''"
  let ?r = "\<lparr>content = js ''@@ -1,2 +1,2 @@\<newline>c\<newline>o\<newline>n'',
             decorations = [hunkHeaderDecoration 1, deletedDecoration 3, addedDecoration 4]\<rparr>"
  have p: "js ''f'' \<noteq> []" by (simp add: js_def)
  have m: "matchFilePattern ?d (js ''f'') = Some ?d" by (simp add: evals)
  have i: "\<not> includesStr ?d (js ''Binary files'')" "\<not> includesStr ?d (js ''deleted file mode'')"
    by (simp_all add: evals)
  have b: "bannerLines ?d = []" by (simp add: evals)
  have l: "splitLines ?d = [js ''diff --git a/f b/f'', js ''@@ -1,2 +1,2 @@'', js '' c'', js ''-o'', js ''+n'']"
    by (simp add: js_def LF_def)
  have c: "foldl colorLine (colorLoopInit [])
       [js ''diff --git a/f b/f'', js ''@@ -1,2 +1,2 @@'', js '' c'', js ''-o'', js ''+n'']
     = \<lparr>lineNumber = 4, inHunk = True,
        contentLines = [js ''@@ -1,2 +1,2 @@'', js ''c'', js ''o'', js ''n''],
        decorationList = [hunkHeaderDecoration 1, deletedDecoration 3, addedDecoration 4]\<rparr>"
    by (simp add: colorLoopInit_def colorLine_def isDiffMetadata_def evals deco_evals)
  have rf: "renderFragment ?d = ?r"
    unfolding renderFragment_eval[OF b l c] by (simp add: js_def LF_def)
  have h1: "fst (parseDiffWithColors [] ?d (js ''f'')) = Some ?r"
    using parseDiffWithColors_render[OF p m i, of "[]"] rf by simp
  have h2: "?r \<notin> {binaryPlaceholder, deletedPlaceholder, emptyPlaceholder, errorPlaceholder}"
    by (simp add: deco_evals errorPlaceholder_def js_def)
  from annotations_match_display_lines[OF h1 h2]
  obtain fileDiff where
    "matchFilePattern ?d (js ''f'') = Some fileDiff"
    "splitLines (content ?r)
       = bannerLines fileDiff @ map displayText (displayedSourceLines (splitLines fileDiff))"
    "length (filter (\<lambda>d. categoryOf d = Added) (decorations ?r))
       = length (filter (\<lambda>l. originOf l = Added) (displayedSourceLines (splitLines fileDiff)))"
    unfolding Let_def by blast
  then have "\<exists>fileDiff. matchFilePattern ?d (js ''f'') = Some fileDiff
        \<and> splitLines (js ''@@ -1,2 +1,2 @@\<newline>c\<newline>o\<newline>n'')
          = bannerLines fileDiff @ map displayText (displayedSourceLines (splitLines fileDiff))
        \<and> length (filter (\<lambda>l. originOf l = Added) (displayedSourceLines (splitLines fileDiff)))
          = length (filter (\<lambda>d. categoryOf d = Added)
              [hunkHeaderDecoration 1, deletedDecoration 3, addedDecoration 4])"
    by (intro exI[of _ fileDiff]) simp
  with h1 h2 show ?thesis by blast
qed

section \<open>Banners\<close>










section \<open>The hunk header pattern\<close>
















end
